theory Spec2Isabelle
  imports Complex_Main "HOL-Library.AList"
begin

section \<open>JavaScript values\<close>

text \<open>
  The validators of \<^verbatim>\<open>schema.ts\<close> only read their input: they never write to an
  object or an array, they only build new ones (\<^verbatim>\<open>{ ...changedValue, [key]: v }\<close>,
  \<^verbatim>\<open>toSpliced\<close>). A value is therefore modelled as an immutable tree in which every
  object, array and function carries the reference (an address) that gives it its
  identity: two objects are the same instance iff they have the same address.

  Numbers are IEEE doubles in JavaScript. No arithmetic is done on them here; what the
  code observes is \<^verbatim>\<open>typeof\<close> and \<^verbatim>\<open>!==\<close>, so a number is either \<open>NaN\<close> (the one
  number that is not \<^verbatim>\<open>===\<close> to itself) or a numeric value, represented by a real.

  Property lookups (\<^verbatim>\<open>key in value\<close>, \<^verbatim>\<open>value[key]\<close>) see the own properties of a value
  and those it inherits along its prototype chain. A plain object inherits from
  \<^verbatim>\<open>Object.prototype\<close>, an array from \<^verbatim>\<open>Array.prototype\<close> and then from \<^verbatim>\<open>Object.prototype\<close>; the
  two prototypes are those of the standard library (ECMAScript 2023, the edition that
  has \<^verbatim>\<open>toSpliced\<close>), as no caller has changed them. The prototypes and their methods
  are values too: the intrinsic objects.
\<close>

type_synonym addr = nat

datatype jsnumber = NaN | Finite real

text \<open>
  A property key is a string or a symbol. The two well-known symbols that are keys of
  \<^verbatim>\<open>Array.prototype\<close> are numbered first: \<^verbatim>\<open>Symbol.iterator\<close> is symbol 0 and
  \<^verbatim>\<open>Symbol.unscopables\<close> is symbol 1.
\<close>

datatype key = KString string | KSymbol nat

text \<open>
  The intrinsic objects: \<^verbatim>\<open>Object.prototype\<close>, \<^verbatim>\<open>Array.prototype\<close>, the object
  \<^verbatim>\<open>Array.prototype[Symbol.unscopables]\<close>, and the built-in functions, each named by where
  the standard library has it (\<^verbatim>\<open>Object\<close>, \<^verbatim>\<open>Array.prototype.at\<close>).
\<close>

datatype intrinsic = ObjectPrototype | ArrayPrototype | ArrayUnscopables | Builtin string

datatype jsval =
    VUndefined
  | VNull
  | VBoolean bool
  | VNumber jsnumber
  | VBigInt int
  | VString string
  | VSymbol nat
  | VObject addr "(key \<times> jsval) list"
  | VArray addr "jsval list"
  | VFunction addr
  | VIntrinsic intrinsic

text \<open>\<^verbatim>\<open>typeof value\<close>.\<close>

fun typeof :: "jsval \<Rightarrow> string" where
  "typeof VUndefined = ''undefined''"
| "typeof VNull = ''object''"
| "typeof (VBoolean b) = ''boolean''"
| "typeof (VNumber n) = ''number''"
| "typeof (VBigInt n) = ''bigint''"
| "typeof (VString s) = ''string''"
| "typeof (VSymbol s) = ''symbol''"
| "typeof (VObject a ps) = ''object''"
| "typeof (VArray a xs) = ''object''"
| "typeof (VFunction a) = ''function''"
| "typeof (VIntrinsic (Builtin n)) = ''function''"
| "typeof (VIntrinsic i) = ''object''"

text \<open>\<^verbatim>\<open>Array.isArray(value)\<close>. \<^verbatim>\<open>Array.prototype\<close> is itself an array, of length 0.\<close>

fun isArray :: "jsval \<Rightarrow> bool" where
  "isArray (VArray a xs) = True"
| "isArray (VIntrinsic ArrayPrototype) = True"
| "isArray v = False"

text \<open>
  \<^verbatim>\<open>a === b\<close>: primitives are compared by value, except that \<open>NaN\<close> is equal to
  nothing; objects, arrays and functions are compared by reference.
\<close>

fun strict_eq :: "jsval \<Rightarrow> jsval \<Rightarrow> bool" where
  "strict_eq (VNumber a) b = (a \<noteq> NaN \<and> b = VNumber a)"
| "strict_eq (VObject a ps) b = (case b of VObject a' qs \<Rightarrow> a = a' | _ \<Rightarrow> False)"
| "strict_eq (VArray a xs) b = (case b of VArray a' ys \<Rightarrow> a = a' | _ \<Rightarrow> False)"
| "strict_eq a b = (a = b)"

text \<open>The decimal form of a natural number, as a template literal prints an index.\<close>

definition digit :: "nat \<Rightarrow> char" where
  "digit d = ''0123456789'' ! d"

fun show_nat :: "nat \<Rightarrow> string" where
  "show_nat n =
     (if n < 10 then [digit n]
      else show_nat (n div 10) @ [digit (n mod 10)])"

declare show_nat.simps [simp del]

text \<open>
  The own properties of the two prototypes. The methods of \<^verbatim>\<open>Object.prototype\<close>, its
  \<^verbatim>\<open>constructor\<close>, and the accessor \<^verbatim>\<open>__proto__\<close>, which is treated apart below; the
  methods of \<^verbatim>\<open>Array.prototype\<close>, its \<^verbatim>\<open>constructor\<close>, its \<^verbatim>\<open>length\<close> 0 and its two
  symbol keys, \<^verbatim>\<open>Symbol.iterator\<close> being the function \<^verbatim>\<open>values\<close>.
\<close>

definition Object_prototype_methods :: "string list" where
  "Object_prototype_methods =
     [''__defineGetter__'', ''__defineSetter__'', ''__lookupGetter__'', ''__lookupSetter__'',
      ''hasOwnProperty'', ''isPrototypeOf'', ''propertyIsEnumerable'', ''toLocaleString'',
      ''toString'', ''valueOf'']"

definition Object_prototype_properties :: "(key \<times> jsval) list" where
  "Object_prototype_properties =
     (KString ''constructor'', VIntrinsic (Builtin ''Object'')) #
     map (\<lambda>m. (KString m, VIntrinsic (Builtin (''Object.prototype.'' @ m))))
       Object_prototype_methods"

definition Array_prototype_methods :: "string list" where
  "Array_prototype_methods =
     [''at'', ''concat'', ''copyWithin'', ''entries'', ''every'', ''fill'', ''filter'', ''find'',
      ''findIndex'', ''findLast'', ''findLastIndex'', ''flat'', ''flatMap'', ''forEach'',
      ''includes'', ''indexOf'', ''join'', ''keys'', ''lastIndexOf'', ''map'', ''pop'', ''push'',
      ''reduce'', ''reduceRight'', ''reverse'', ''shift'', ''slice'', ''some'', ''sort'',
      ''splice'', ''toLocaleString'', ''toReversed'', ''toSorted'', ''toSpliced'', ''toString'',
      ''unshift'', ''values'', ''with'']"

definition Array_prototype_properties :: "(key \<times> jsval) list" where
  "Array_prototype_properties =
     (KString ''length'', VNumber (Finite 0)) #
     (KString ''constructor'', VIntrinsic (Builtin ''Array'')) #
     (KSymbol 0, VIntrinsic (Builtin ''Array.prototype.values'')) #
     (KSymbol 1, VIntrinsic ArrayUnscopables) #
     map (\<lambda>m. (KString m, VIntrinsic (Builtin (''Array.prototype.'' @ m))))
       Array_prototype_methods"

text \<open>The own properties of \<^verbatim>\<open>Array.prototype[Symbol.unscopables]\<close>, all \<^verbatim>\<open>true\<close>.\<close>

definition Array_unscopables_properties :: "(key \<times> jsval) list" where
  "Array_unscopables_properties =
     map (\<lambda>m. (KString m, VBoolean True))
       [''at'', ''copyWithin'', ''entries'', ''fill'', ''find'', ''findIndex'', ''findLast'',
        ''findLastIndex'', ''flat'', ''flatMap'', ''includes'', ''keys'', ''toReversed'',
        ''toSorted'', ''toSpliced'', ''values'']"

text \<open>
  The own data properties of a value. A string key names an element of an array iff it is
  the decimal form of an index below the length.
\<close>

fun own_property :: "jsval \<Rightarrow> key \<Rightarrow> jsval option" where
  "own_property (VObject a ps) k = map_of ps k"
| "own_property (VArray a xs) (KString s) =
     (if s = ''length'' then Some (VNumber (Finite (real (length xs))))
      else map_option (\<lambda>i. xs ! i) (find (\<lambda>i. show_nat i = s) [0..<length xs]))"
| "own_property (VIntrinsic ObjectPrototype) k = map_of Object_prototype_properties k"
| "own_property (VIntrinsic ArrayPrototype) k = map_of Array_prototype_properties k"
| "own_property (VIntrinsic ArrayUnscopables) k = map_of Array_unscopables_properties k"
| "own_property v k = None"

declare own_property.simps(3,4,5) [simp del]

text \<open>
  The prototype of an object, \<^verbatim>\<open>null\<close> at the end of the chain. The code applies
  \<^verbatim>\<open>key in value\<close> and \<^verbatim>\<open>value[key]\<close> only behind its guard, to values whose \<^verbatim>\<open>typeof\<close> is
  \<^verbatim>\<open>object\<close>; the properties of functions are not modelled.
\<close>

fun prototype_of :: "jsval \<Rightarrow> jsval" where
  "prototype_of (VObject a ps) = VIntrinsic ObjectPrototype"
| "prototype_of (VArray a xs) = VIntrinsic ArrayPrototype"
| "prototype_of (VIntrinsic ArrayPrototype) = VIntrinsic ObjectPrototype"
| "prototype_of v = VNull"

text \<open>The objects a lookup visits: the value, its prototype, the prototype of that.\<close>

definition prototype_chain :: "jsval \<Rightarrow> jsval list" where
  "prototype_chain v =
     v # (if prototype_of v = VNull then []
          else prototype_of v #
               (if prototype_of (prototype_of v) = VNull then []
                else [prototype_of (prototype_of v)]))"

text \<open>
  The lookup of a key: the first object of the chain that has it as an own data property
  gives the value. Failing that, the key \<^verbatim>\<open>__proto__\<close> is found as the accessor of
  \<^verbatim>\<open>Object.prototype\<close>, when the chain reaches it, and reads the prototype of the value.
\<close>

definition lookup_property :: "jsval \<Rightarrow> key \<Rightarrow> jsval option" where
  "lookup_property v k =
     (case List.map_filter (\<lambda>holder. own_property holder k) (prototype_chain v) of
        x # xs \<Rightarrow> Some x
      | [] \<Rightarrow>
          (if k = KString ''__proto__'' \<and> VIntrinsic ObjectPrototype \<in> set (prototype_chain v)
           then Some (prototype_of v) else None))"

text \<open>\<^verbatim>\<open>key in value\<close> and \<^verbatim>\<open>value[key]\<close>.\<close>

definition has_property :: "jsval \<Rightarrow> key \<Rightarrow> bool" where
  "has_property v k = (lookup_property v k \<noteq> None)"

definition get_property :: "jsval \<Rightarrow> key \<Rightarrow> jsval" where
  "get_property v k = (case lookup_property v k of Some x \<Rightarrow> x | None \<Rightarrow> VUndefined)"

text \<open>
  The own enumerable properties, which the spread \<^verbatim>\<open>{ ...value }\<close> copies: all entries of a
  plain object, the indexed elements of an array (its \<^verbatim>\<open>length\<close> is not enumerable). The
  properties of the two prototypes are not enumerable.
\<close>

fun own_enumerable :: "jsval \<Rightarrow> (key \<times> jsval) list" where
  "own_enumerable (VObject a ps) = ps"
| "own_enumerable (VArray a xs) = zip (map (\<lambda>i. KString (show_nat i)) [0..<length xs]) xs"
| "own_enumerable (VIntrinsic ArrayUnscopables) = Array_unscopables_properties"
| "own_enumerable v = []"

text \<open>The elements of an array (\<^verbatim>\<open>value.length\<close> is their number, \<^verbatim>\<open>value[i]\<close> the i-th).\<close>

fun elements :: "jsval \<Rightarrow> jsval list" where
  "elements (VArray a xs) = xs"
| "elements v = []"

section \<open>The world: allocation and calls of caller-supplied functions\<close>

text \<open>
  Building an object or an array takes the next free address. Every call that the library
  makes of a caller-supplied function (a converter, a predicate) is recorded with the
  function's name and its argument, so that the number of calls can be stated.
\<close>

record world =
  next_addr :: addr
  calls :: "(string \<times> jsval) list"

text \<open>
  A thrown value \<^verbatim>\<open>e\<close>, as the \<^verbatim>\<open>catch\<close> clause of \<^verbatim>\<open>convert\<close> observes it through
  \<^verbatim>\<open>e instanceof Error ? e.message : String(e)\<close>. Either \<^verbatim>\<open>e\<close> is an instance of \<^verbatim>\<open>Error\<close>, and
  reading \<^verbatim>\<open>e.message\<close> returns a string or throws in its turn (an accessor); or it is not,
  and \<^verbatim>\<open>String(e)\<close> returns a string or throws in its turn (a \<^verbatim>\<open>toString\<close> that throws, an
  object that cannot be converted to a primitive); or the test \<^verbatim>\<open>e instanceof Error\<close> itself
  throws (a proxy). The message of an \<^verbatim>\<open>Error\<close> is a string, as its type declares. Reading
  the message is taken to leave the world as it is.
\<close>

datatype thrown =
    ThrownError "thrown + string"
  | ThrownOther "thrown + string"
  | ThrownUntestable thrown

text \<open>
  A caller-supplied function: its \<^verbatim>\<open>name\<close> (empty for an anonymous function), its textual
  form \<^verbatim>\<open>String(f)\<close>, and its body, which returns a value or throws and may allocate.
\<close>

record js_function =
  name :: string
  text_form :: string
  body :: "jsval \<Rightarrow> addr \<Rightarrow> (thrown + jsval) \<times> addr"

definition invoke :: "js_function \<Rightarrow> jsval \<Rightarrow> world \<Rightarrow> (thrown + jsval) \<times> world" where
  "invoke f v w =
     (case body f v (next_addr w) of
        (r, n) \<Rightarrow> (r, \<lparr>next_addr = n, calls = calls w @ [(name f, v)]\<rparr>))"

text \<open>Truthiness of a value, as \<^verbatim>\<open>if (f(value))\<close> tests it.\<close>

fun truthy :: "jsval \<Rightarrow> bool" where
  "truthy VUndefined = False"
| "truthy VNull = False"
| "truthy (VBoolean b) = b"
| "truthy (VNumber n) = (n \<noteq> NaN \<and> n \<noteq> Finite 0)"
| "truthy (VBigInt n) = (n \<noteq> 0)"
| "truthy (VString s) = (s \<noteq> [])"
| "truthy v = True"

section \<open>Results and schemas\<close>

datatype path_item = PKey key | PIndex nat

record validate_error =
  message :: string
  path :: "path_item list"

datatype result = Success jsval | Failure validate_error

definition failure :: "string \<Rightarrow> path_item list \<Rightarrow> result" where
  "failure msg p = Failure \<lparr>message = msg, path = p\<rparr>"

text \<open>
  A schema is an object with a \<^verbatim>\<open>type\<close> tag and a \<^verbatim>\<open>validate\<close> function. A call of
  \<^verbatim>\<open>validate\<close> returns a result or lets an exception escape (\<open>Inl\<close>).
\<close>

record schema =
  type :: string
  validate :: "jsval \<Rightarrow> world \<Rightarrow> (thrown + result) \<times> world"

subsection \<open>Leaf schemas\<close>

definition boolean :: schema where
  "boolean = \<lparr>type = ''boolean'', validate = (\<lambda>value w.
     (Inr (if typeof value = ''boolean'' then Success value else failure ''not a boolean'' []), w))\<rparr>"

definition number :: schema where
  "number = \<lparr>type = ''number'', validate = (\<lambda>value w.
     (Inr (if typeof value = ''number'' then Success value else failure ''not a number'' []), w))\<rparr>"

definition bigint :: schema where
  "bigint = \<lparr>type = ''bigint'', validate = (\<lambda>value w.
     (Inr (if typeof value = ''bigint'' then Success value else failure ''not a bigint'' []), w))\<rparr>"

definition string :: schema where
  "string = \<lparr>type = ''string'', validate = (\<lambda>value w.
     (Inr (if typeof value = ''string'' then Success value else failure ''not a string'' []), w))\<rparr>"

definition symbol :: schema where
  "symbol = \<lparr>type = ''symbol'', validate = (\<lambda>value w.
     (Inr (if typeof value = ''symbol'' then Success value else failure ''not a symbol'' []), w))\<rparr>"

definition unknown :: schema where
  "unknown = \<lparr>type = ''unknown'', validate = (\<lambda>value w. (Inr (Success value), w))\<rparr>"

definition any :: schema where
  "any = \<lparr>type = ''any'', validate = (\<lambda>value w. (Inr (Success value), w))\<rparr>"

definition never :: schema where
  "never = \<lparr>type = ''never'', validate = (\<lambda>value w.
     (Inr (failure ''never type does not accept any value'' []), w))\<rparr>"

text \<open>The bare \<^verbatim>\<open>object\<close>, used as a leaf schema.\<close>

definition object :: schema where
  "object = \<lparr>type = ''object'', validate = (\<lambda>value w.
     (Inr (if typeof value = ''object'' \<and> value \<noteq> VNull then Success value
           else failure ''not an object'' []), w))\<rparr>"

subsection \<open>\<^verbatim>\<open>object(properties)\<close>\<close>

text \<open>
  An entry of the property map is a schema or \<^verbatim>\<open>optional(schema)\<close>, the object
  \<^verbatim>\<open>{ type: 'optional', schema }\<close>. The property map is given as the list of its entries in
  the order in which \<^verbatim>\<open>Reflect.ownKeys(properties)\<close> enumerates the keys, which are
  distinct; the loops below take each key together with its entry \<^verbatim>\<open>properties[key]\<close>.
\<close>

datatype property = Schema schema | Optional schema

definition optional :: "schema \<Rightarrow> property" where
  "optional s = Optional s"

text \<open>\<^verbatim>\<open>properties[key].type === 'optional'\<close>.\<close>

fun is_optional :: "property \<Rightarrow> bool" where
  "is_optional (Optional s) = True"
| "is_optional (Schema s) = False"

text \<open>
  The schema whose \<^verbatim>\<open>validate\<close> is called for an entry: the entry itself for a required
  key (\<^verbatim>\<open>properties[key] as SchemaBase\<close>), its \<^verbatim>\<open>schema\<close> field for an optional one.
\<close>

fun property_schema :: "property \<Rightarrow> schema" where
  "property_schema (Schema s) = s"
| "property_schema (Optional s) = s"

text \<open>How a loop of a validator ends: an exception, a \<^verbatim>\<open>return\<close>, or its normal end
  with the current \<^verbatim>\<open>changedValue\<close>.\<close>

datatype loop_exit = Throws thrown | Returns result | Completes jsval

text \<open>\<^verbatim>\<open>{ ...changedValue, [key]: v }\<close>: a new plain object.\<close>

definition spread_with :: "jsval \<Rightarrow> key \<Rightarrow> jsval \<Rightarrow> world \<Rightarrow> jsval \<times> world" where
  "spread_with changedValue k v w =
     (VObject (next_addr w) (AList.update k v (own_enumerable changedValue)),
      w\<lparr>next_addr := Suc (next_addr w)\<rparr>)"

text \<open>The loop over the required keys (lines 85 to 93).\<close>

fun validate_required ::
  "(key \<times> property) list \<Rightarrow> jsval \<Rightarrow> jsval \<Rightarrow> world \<Rightarrow> loop_exit \<times> world" where
  "validate_required [] value changedValue w = (Completes changedValue, w)"
| "validate_required ((k, p) # rest) value changedValue w =
     (if \<not> has_property value k
      then (Returns (failure ''missing required property'' [PKey k]), w)
      else
        (case validate (property_schema p) (get_property value k) w of
           (Inl e, w1) \<Rightarrow> (Throws e, w1)
         | (Inr (Failure error), w1) \<Rightarrow>
             (Returns (failure (message error) (path error @ [PKey k])), w1)
         | (Inr (Success r), w1) \<Rightarrow>
             (if \<not> strict_eq r (get_property value k)
              then (case spread_with changedValue k r w1 of
                      (changedValue', w2) \<Rightarrow> validate_required rest value changedValue' w2)
              else validate_required rest value changedValue w1)))"

text \<open>The loop over the optional keys (lines 95 to 103).\<close>

fun validate_optional ::
  "(key \<times> property) list \<Rightarrow> jsval \<Rightarrow> jsval \<Rightarrow> world \<Rightarrow> loop_exit \<times> world" where
  "validate_optional [] value changedValue w = (Completes changedValue, w)"
| "validate_optional ((k, p) # rest) value changedValue w =
     (if \<not> has_property value k
      then validate_optional rest value changedValue w
      else
        (case validate (property_schema p) (get_property value k) w of
           (Inl e, w1) \<Rightarrow> (Throws e, w1)
         | (Inr (Failure error), w1) \<Rightarrow>
             (Returns (Failure \<lparr>message = message error, path = path error @ [PKey k]\<rparr>), w1)
         | (Inr (Success r), w1) \<Rightarrow>
             (if \<not> strict_eq r (get_property value k)
              then (case spread_with changedValue k r w1 of
                      (changedValue', w2) \<Rightarrow> validate_optional rest value changedValue' w2)
              else validate_optional rest value changedValue w1)))"

text \<open>
  \<^verbatim>\<open>partition\<close> (of the library base-up) returns the elements that satisfy the
  predicate first, the others second, each in their original order.
\<close>

definition objectFunction :: "(key \<times> property) list \<Rightarrow> schema" where
  "objectFunction properties = \<lparr>type = ''properties'', validate = (\<lambda>value w.
     if typeof value \<noteq> ''object'' \<or> value = VNull
     then (Inr (failure ''not an object'' []), w)
     else
       (case partition (\<lambda>(k, p). is_optional p) properties of
          (optionalProperties, requiredProperties) \<Rightarrow>
            (case validate_required requiredProperties value value w of
               (Throws e, w1) \<Rightarrow> (Inl e, w1)
             | (Returns r, w1) \<Rightarrow> (Inr r, w1)
             | (Completes changedValue, w1) \<Rightarrow>
                 (case validate_optional optionalProperties value changedValue w1 of
                    (Throws e, w2) \<Rightarrow> (Inl e, w2)
                  | (Returns r, w2) \<Rightarrow> (Inr r, w2)
                  | (Completes changedValue', w2) \<Rightarrow> (Inr (Success changedValue'), w2)))))\<rparr>"

subsection \<open>\<^verbatim>\<open>Array_(element)\<close>, here \<open>Array\<close>\<close>

text \<open>
  \<^verbatim>\<open>changedValue.toSpliced(i, 1, v)\<close>: a new array in which the element at \<open>i\<close> is
  replaced by \<open>v\<close> (at or beyond the end nothing is removed and \<open>v\<close> is appended).
\<close>

definition toSpliced :: "jsval \<Rightarrow> nat \<Rightarrow> jsval \<Rightarrow> world \<Rightarrow> jsval \<times> world" where
  "toSpliced changedValue i v w =
     (VArray (next_addr w)
        (take i (elements changedValue) @ [v] @ drop (Suc i) (elements changedValue)),
      w\<lparr>next_addr := Suc (next_addr w)\<rparr>)"

text \<open>The loop over the indices (lines 124 to 129).\<close>

function validate_elements ::
  "schema \<Rightarrow> jsval \<Rightarrow> nat \<Rightarrow> jsval \<Rightarrow> world \<Rightarrow> loop_exit \<times> world" where
  "validate_elements element value i changedValue w =
     (if i < length (elements value)
      then
        (case validate element (elements value ! i) w of
           (Inl e, w1) \<Rightarrow> (Throws e, w1)
         | (Inr (Failure error), w1) \<Rightarrow>
             (Returns (failure (message error) (PIndex i # path error)), w1)
         | (Inr (Success r), w1) \<Rightarrow>
             (if \<not> strict_eq r (elements value ! i)
              then (case toSpliced changedValue i r w1 of
                      (changedValue', w2) \<Rightarrow>
                        validate_elements element value (Suc i) changedValue' w2)
              else validate_elements element value (Suc i) changedValue w1))
      else (Completes changedValue, w))"
  by pat_completeness auto
termination
  by (relation "measure (\<lambda>(element, value, i, changedValue, w). length (elements value) - i)")
     auto

declare validate_elements.simps [simp del]

definition Array :: "schema \<Rightarrow> schema" where
  "Array element = \<lparr>type = ''Array'', validate = (\<lambda>value w.
     if \<not> isArray value then (Inr (failure ''not an array'' []), w)
     else
       (case validate_elements element value 0 value w of
          (Throws e, w1) \<Rightarrow> (Inl e, w1)
        | (Returns r, w1) \<Rightarrow> (Inr r, w1)
        | (Completes changedValue, w1) \<Rightarrow> (Inr (Success changedValue), w1)))\<rparr>"

subsection \<open>\<^verbatim>\<open>or(...schemas)\<close>\<close>

text \<open>\<^verbatim>\<open>messages.join(sep)\<close>.\<close>

fun join :: "string \<Rightarrow> string list \<Rightarrow> string" where
  "join sep [] = []"
| "join sep [x] = x"
| "join sep (x # y # ys) = x @ sep @ join sep (y # ys)"

text \<open>The message built after the loop (line 35).\<close>

definition issues :: "string list \<Rightarrow> string" where
  "issues errorMessages =
     ''must resolve any one of the following issues: '' @
     join '' '' (map (\<lambda>(i, m). ''('' @ show_nat (i + 1) @ '') '' @ m) (enumerate 0 errorMessages))"

text \<open>The loop over the child schemas (lines 27 to 32) and the final failure.\<close>

fun or_loop ::
  "schema list \<Rightarrow> jsval \<Rightarrow> string list \<Rightarrow> world \<Rightarrow> (thrown + result) \<times> world" where
  "or_loop [] input errorMessages w = (Inr (failure (issues errorMessages) []), w)"
| "or_loop (s # rest) input errorMessages w =
     (case validate s input w of
        (Inl e, w1) \<Rightarrow> (Inl e, w1)
      | (Inr (Success r), w1) \<Rightarrow> (Inr (Success r), w1)
      | (Inr (Failure error), w1) \<Rightarrow> or_loop rest input (errorMessages @ [message error]) w1)"

definition or :: "schema list \<Rightarrow> schema" where
  "or schemas = \<lparr>type = ''or'', validate = (\<lambda>input w. or_loop schemas input [] w)\<rparr>"

subsection \<open>\<^verbatim>\<open>recursive\<close>, \<^verbatim>\<open>convert\<close> and \<^verbatim>\<open>predicate\<close>\<close>

definition recursive :: "(unit \<Rightarrow> schema) \<Rightarrow> schema" where
  "recursive lazy = \<lparr>type = ''recursive'', validate = (\<lambda>value w. validate (lazy ()) value w)\<rparr>"

text \<open>
  The expression of the \<^verbatim>\<open>catch\<close> clause of \<^verbatim>\<open>convert\<close> (line 150),
  \<^verbatim>\<open>e instanceof Error ? e.message : String(e)\<close>: the message, or the exception that
  evaluating it throws.
\<close>

fun thrown_message :: "thrown \<Rightarrow> thrown + string" where
  "thrown_message (ThrownError r) = r"
| "thrown_message (ThrownOther r) = r"
| "thrown_message (ThrownUntestable t) = Inl t"

text \<open>
  The \<^verbatim>\<open>try\<close> block holds the call of the converter only; an exception thrown by the
  \<^verbatim>\<open>catch\<close> clause leaves \<^verbatim>\<open>validate\<close>.
\<close>

definition convert :: "js_function \<Rightarrow> schema" where
  "convert converter = \<lparr>type = ''convert'', validate = (\<lambda>value w.
     (case invoke converter value w of
        (Inr r, w1) \<Rightarrow> (Inr (Success r), w1)
      | (Inl e, w1) \<Rightarrow>
          (case thrown_message e of
             Inr msg \<Rightarrow> (Inr (failure msg []), w1)
           | Inl t \<Rightarrow> (Inl t, w1))))\<rparr>"

definition predicate :: "js_function \<Rightarrow> schema" where
  "predicate f = \<lparr>type = ''predicate'', validate = (\<lambda>value w.
     (case invoke f value w of
        (Inl e, w1) \<Rightarrow> (Inl e, w1)
      | (Inr b, w1) \<Rightarrow>
          (if truthy b then (Inr (Success value), w1)
           else if name f \<noteq> []
           then (Inr (failure (''predicate '' @ name f @ '' not met: '' @ text_form f) []), w1)
           else (Inr (failure (''predicate not met: '' @ text_form f) []), w1))))\<rparr>"

section \<open>Notions used in the statements\<close>

text \<open>
  \<open>all_fail schemas input w\<close> runs the schemas on the input one after the other, in
  order, each in the world left by the one before. It is \<open>Some (ms, w')\<close> iff every one of
  them returns a failure; \<open>ms\<close> are their messages in that order and \<open>w'\<close> is the world
  after the last one.
\<close>

fun all_fail :: "schema list \<Rightarrow> jsval \<Rightarrow> world \<Rightarrow> (string list \<times> world) option" where
  "all_fail [] input w = Some ([], w)"
| "all_fail (s # rest) input w =
     (case validate s input w of
        (Inr (Failure error), w1) \<Rightarrow>
          (case all_fail rest input w1 of
             Some (ms, w') \<Rightarrow> Some (message error # ms, w')
           | None \<Rightarrow> None)
      | _ \<Rightarrow> None)"

text \<open>The messages \<open>ms\<close>, the i-th (counted from 1) preceded by its number in brackets.\<close>

definition numbered :: "string list \<Rightarrow> string list" where
  "numbered ms = map (\<lambda>i. ''('' @ show_nat (i + 1) @ '') '' @ ms ! i) [0..<length ms]"

text \<open>The leaf schemas of \<^verbatim>\<open>schema.ts\<close>, the bare \<^verbatim>\<open>object\<close> among them.\<close>

definition leaf_schemas :: "schema list" where
  "leaf_schemas = [boolean, number, bigint, string, symbol, unknown, any, never, object]"

text \<open>
  The required entries of a property map, in declared order: those that \<^verbatim>\<open>partition\<close>
  leaves in its second component.
\<close>

definition required_properties :: "(key \<times> property) list \<Rightarrow> (key \<times> property) list" where
  "required_properties properties = filter (\<lambda>(k, p). \<not> is_optional p) properties"

text \<open>The optional entries, in declared order: the first component of \<^verbatim>\<open>partition\<close>.\<close>

definition optional_properties :: "(key \<times> property) list \<Rightarrow> (key \<times> property) list" where
  "optional_properties properties = filter (\<lambda>(k, p). is_optional p) properties"

text \<open>
  \<open>run_properties entries value changed w\<close> validates, in order, the entries whose key is
  in the input, each in the world left by the one before, an entry whose result is not
  \<^verbatim>\<open>===\<close> to the input's value being followed by the allocation of the copy. It is
  \<open>Some (changed', w')\<close> iff every one of these validations succeeds; \<open>changed'\<close> tells
  whether \<open>changed\<close> held or some result differed, and \<open>w'\<close> is the world at the end.
\<close>

fun run_properties ::
  "(key \<times> property) list \<Rightarrow> jsval \<Rightarrow> bool \<Rightarrow> world \<Rightarrow> (bool \<times> world) option" where
  "run_properties [] value changed w = Some (changed, w)"
| "run_properties ((k, p) # rest) value changed w =
     (if \<not> has_property value k then run_properties rest value changed w
      else
        (case validate (property_schema p) (get_property value k) w of
           (Inr (Success r), w1) \<Rightarrow>
             (if \<not> strict_eq r (get_property value k)
              then run_properties rest value True (w1\<lparr>next_addr := Suc (next_addr w1)\<rparr>)
              else run_properties rest value changed w1)
         | other \<Rightarrow> None))"

text \<open>
  For child validators that behave as a function \<open>f\<close> of the key, the declared entries
  whose key is present in the input and whose result is not \<^verbatim>\<open>===\<close> to the input's value.
\<close>

definition changed_entries ::
  "(key \<Rightarrow> jsval) \<Rightarrow> jsval \<Rightarrow> (key \<times> property) list \<Rightarrow> (key \<times> property) list" where
  "changed_entries f value ps =
     filter (\<lambda>(k, p). has_property value k \<and> \<not> strict_eq (f k) (get_property value k)) ps"

subsection \<open>Caller-supplied functions of the examples\<close>

text \<open>The predicates \<^verbatim>\<open>(value) => value === 0\<close> and \<^verbatim>\<open>(value) => value === 1\<close>, named.\<close>

definition isZero :: js_function where
  "isZero = \<lparr>name = ''isZero'', text_form = ''(value) => value === 0'',
     body = (\<lambda>v n. (Inr (VBoolean (strict_eq v (VNumber (Finite 0)))), n))\<rparr>"

definition isOne :: js_function where
  "isOne = \<lparr>name = ''isOne'', text_form = ''(value) => value === 1'',
     body = (\<lambda>v n. (Inr (VBoolean (strict_eq v (VNumber (Finite 1)))), n))\<rparr>"

text \<open>
  Four converters: \<open>toText\<close> returns the string \<^verbatim>\<open>undefined\<close> for the value \<^verbatim>\<open>undefined\<close> and
  any other value as it is; \<open>failing_parse\<close> throws an instance of \<^verbatim>\<open>Error\<close>, as \<^verbatim>\<open>JSON.parse\<close>
  does on \<^verbatim>\<open>undefined\<close>; \<open>throwing_zero\<close> is an anonymous function that throws the number 0,
  whose string form is \<^verbatim>\<open>0\<close>; \<open>throwing_unprintable\<close> throws an object whose \<^verbatim>\<open>toString\<close>
  throws an \<^verbatim>\<open>Error\<close> with the message \<^verbatim>\<open>boom\<close>.
\<close>

definition toText :: js_function where
  "toText = \<lparr>name = ''toText'',
     text_form = ''(v) => v === undefined ? `undefined` : v'',
     body = (\<lambda>v n. (Inr (if v = VUndefined then VString ''undefined'' else v), n))\<rparr>"

definition failing_parse :: js_function where
  "failing_parse = \<lparr>name = ''parse'',
     text_form = ''function parse(v) { throw new SyntaxError(`Unexpected token`) }'',
     body = (\<lambda>v n. (Inl (ThrownError (Inr ''Unexpected token'')), n))\<rparr>"

definition throwing_zero :: js_function where
  "throwing_zero = \<lparr>name = [], text_form = ''() => { throw 0 }'',
     body = (\<lambda>v n. (Inl (ThrownOther (Inr ''0'')), n))\<rparr>"

definition throwing_unprintable :: js_function where
  "throwing_unprintable = \<lparr>name = [],
     text_form = ''() => { throw { toString() { throw new Error(`boom`) } } }'',
     body = (\<lambda>v n. (Inl (ThrownOther (Inl (ThrownError (Inr ''boom'')))), n))\<rparr>"

section \<open>Property lookup\<close>

text \<open>
  What \<^verbatim>\<open>key in value\<close> and \<^verbatim>\<open>value[key]\<close> give for a plain object and for an array, own
  and inherited properties together.
\<close>

lemma map_of_methods:
  "map_of (map (\<lambda>m. (KString m, g m)) ms) (KString s) = (if s \<in> set ms then Some (g s) else None)"
  by (induction ms) auto

lemma map_of_methods_symbol:
  "map_of (map (\<lambda>m. (KString m, g m)) ms) (KSymbol n) = None"
  by (induction ms) auto

lemma own_property_Object_prototype:
  "own_property (VIntrinsic ObjectPrototype) (KString s) =
     (if s = ''constructor'' then Some (VIntrinsic (Builtin ''Object''))
      else if s \<in> set Object_prototype_methods
      then Some (VIntrinsic (Builtin (''Object.prototype.'' @ s))) else None)"
  "own_property (VIntrinsic ObjectPrototype) (KSymbol n) = None"
  unfolding own_property.simps Object_prototype_properties_def
  by (simp_all only: map_of.simps map_of_methods map_of_methods_symbol fun_upd_apply key.inject
      key.distinct fst_conv snd_conv if_False)

lemma own_property_Array_prototype:
  "own_property (VIntrinsic ArrayPrototype) (KString s) =
     (if s = ''length'' then Some (VNumber (Finite 0))
      else if s = ''constructor'' then Some (VIntrinsic (Builtin ''Array''))
      else if s \<in> set Array_prototype_methods
      then Some (VIntrinsic (Builtin (''Array.prototype.'' @ s))) else None)"
  unfolding own_property.simps Array_prototype_properties_def
  by (simp only: map_of.simps map_of_methods fun_upd_apply key.inject
      key.distinct fst_conv snd_conv if_False)


lemma prototype_chain_simps:
  "prototype_chain (VObject a ps) = [VObject a ps, VIntrinsic ObjectPrototype]"
  "prototype_chain (VArray a xs) =
     [VArray a xs, VIntrinsic ArrayPrototype, VIntrinsic ObjectPrototype]"
  by (simp_all add: prototype_chain_def)

lemma lookup_property_object:
  "lookup_property (VObject a ps) k =
     (case map_of ps k of
        Some x \<Rightarrow> Some x
      | None \<Rightarrow>
          (case own_property (VIntrinsic ObjectPrototype) k of
             Some y \<Rightarrow> Some y
           | None \<Rightarrow> if k = KString ''__proto__'' then Some (VIntrinsic ObjectPrototype) else None))"
  unfolding lookup_property_def prototype_chain_simps
  by (simp add: List.map_filter_simps split: option.splits)

lemma lookup_property_array:
  "lookup_property (VArray a xs) k =
     (case own_property (VArray a xs) k of
        Some x \<Rightarrow> Some x
      | None \<Rightarrow>
          (case own_property (VIntrinsic ArrayPrototype) k of
             Some y \<Rightarrow> Some y
           | None \<Rightarrow>
               (case own_property (VIntrinsic ObjectPrototype) k of
                  Some z \<Rightarrow> Some z
                | None \<Rightarrow>
                    if k = KString ''__proto__'' then Some (VIntrinsic ArrayPrototype) else None)))"
  unfolding lookup_property_def prototype_chain_simps
  by (simp add: List.map_filter_simps del: own_property.simps split: option.splits)

lemma lookup_property_own:
  "own_property v k = Some x \<Longrightarrow> lookup_property v k = Some x"
  by (simp add: lookup_property_def prototype_chain_def List.map_filter_simps)

lemma has_property_own: "own_property v k = Some x \<Longrightarrow> has_property v k"
  by (simp add: has_property_def lookup_property_own)

lemma get_property_own: "own_property v k = Some x \<Longrightarrow> get_property v k = x"
  by (simp add: get_property_def lookup_property_own)

lemma has_property_object:
  "has_property (VObject a ps) (KString s) \<longleftrightarrow>
     map_of ps (KString s) \<noteq> None \<or> s = ''constructor'' \<or> s = ''__proto__'' \<or>
     s \<in> set Object_prototype_methods"
  unfolding has_property_def lookup_property_object own_property_Object_prototype
  by (simp split: option.splits)

lemma has_property_array:
  "has_property (VArray a xs) (KString s) \<longleftrightarrow>
     own_property (VArray a xs) (KString s) \<noteq> None \<or> s = ''constructor'' \<or> s = ''__proto__'' \<or>
     s \<in> set Array_prototype_methods \<or> s \<in> set Object_prototype_methods"
proof (cases "own_property (VArray a xs) (KString s)")
  case None
  then have "s \<noteq> ''length''" by (auto split: if_splits)
  with None show ?thesis
    unfolding has_property_def lookup_property_array own_property_Array_prototype
      own_property_Object_prototype
    by simp
next
  case (Some x)
  then show ?thesis
    unfolding has_property_def lookup_property_array by simp
qed

lemma inherited_examples:
  "has_property (VObject 0 []) (KString ''toString'')"
  "get_property (VObject 0 []) (KString ''toString'') =
     VIntrinsic (Builtin ''Object.prototype.toString'')"
  "has_property (VArray 0 [VString ''x'']) (KString ''at'')"
  "get_property (VArray 0 [VString ''x'']) (KString ''at'') =
     VIntrinsic (Builtin ''Array.prototype.at'')"
  "get_property (VArray 0 [VString ''x'']) (KString ''toString'') =
     VIntrinsic (Builtin ''Array.prototype.toString'')"
  "get_property (VArray 0 [VString ''x'']) (KString ''length'') = VNumber (Finite 1)"
  "get_property (VArray 0 [VString ''x'']) (KString ''__proto__'') = VIntrinsic ArrayPrototype"
  "\<not> has_property (VArray 0 [VString ''x'']) (KString ''1'')"
  "\<not> has_property (VObject 0 [(KString ''a'', VString ''x'')]) (KString ''b'')"
  by (simp_all add: has_property_object has_property_array get_property_def
      lookup_property_object lookup_property_array own_property_Object_prototype
      own_property_Array_prototype Object_prototype_methods_def Array_prototype_methods_def
      show_nat.simps digit_def)

lemmas lookup_simps =
  has_property_object has_property_array get_property_def lookup_property_object
  lookup_property_array own_property_Object_prototype own_property_Array_prototype
  Object_prototype_methods_def Array_prototype_methods_def

section \<open>The choice combinator\<close>

lemma numbered_enumerate:
  "map (\<lambda>(i, m). ''('' @ show_nat (i + 1) @ '') '' @ m) (enumerate 0 ms) = numbered ms"
  unfolding numbered_def enumerate_eq_zip
  by (rule nth_equalityI) simp_all

lemma issues_numbered:
  "issues ms = ''must resolve any one of the following issues: '' @ join '' '' (numbered ms)"
  unfolding issues_def numbered_enumerate ..

lemma or_loop_all_fail:
  "all_fail schemas input w = Some (ms, w') \<Longrightarrow>
   or_loop schemas input acc w = (Inr (failure (issues (acc @ ms)) []), w')"
proof (induction schemas arbitrary: acc w ms)
  case Nil
  then show ?case by simp
next
  case (Cons s rest)
  then show ?case
    by (auto split: prod.splits sum.splits result.splits option.splits)
qed

lemma or_loop_first_success:
  "all_fail fs input w = Some (ms, w1) \<Longrightarrow>
   validate s input w1 = (Inr (Success r), w2) \<Longrightarrow>
   or_loop (fs @ s # ts) input acc w = (Inr (Success r), w2)"
proof (induction fs arbitrary: acc w ms)
  case Nil
  then show ?case by simp
next
  case (Cons f fs)
  then show ?case
    by (auto split: prod.splits sum.splits result.splits option.splits)
qed

text \<open>
  Claim C10. \<^verbatim>\<open>or()\<close>, applied to no child schema, fails for every input: the failure has
  an empty path and its message is the prefix
  \<^verbatim>\<open>must resolve any one of the following issues: \<close> followed by no numbered issue. The
  world is left as it was.
\<close>

theorem or_empty_fails:
  "validate (or []) input w =
     (Inr (Failure \<lparr>message = ''must resolve any one of the following issues: '', path = []\<rparr>), w)"
  by (simp add: or_def issues_def failure_def enumerate_eq_zip)

text \<open>
  Claim C6. When every child of an \<^verbatim>\<open>or\<close> schema fails on the input, \<^verbatim>\<open>or\<close> returns one
  failure with an empty path, whose message is the prefix followed by the children's
  messages in the order of trial, each preceded by its number, separated by a space. The
  witness is the case of the test suite: \<^verbatim>\<open>or(number, string)\<close> against \<^verbatim>\<open>true\<close>.
\<close>

theorem or_all_fail:
  assumes "all_fail schemas input w = Some (ms, w')"
  shows "validate (or schemas) input w =
     (Inr (Failure \<lparr>message = ''must resolve any one of the following issues: '' @
                               join '' '' (numbered ms),
                    path = []\<rparr>), w')"
  using or_loop_all_fail [OF assms, of "[]"]
  unfolding or_def issues_numbered failure_def by simp

theorem or_all_fail_witness:
  "all_fail [number, string] (VBoolean True) \<lparr>next_addr = 0, calls = []\<rparr> =
     Some ([''not a number'', ''not a string''], \<lparr>next_addr = 0, calls = []\<rparr>) \<and>
   validate (or [number, string]) (VBoolean True) \<lparr>next_addr = 0, calls = []\<rparr> =
     (Inr (Failure \<lparr>message =
        ''must resolve any one of the following issues: (1) not a number (2) not a string'',
        path = []\<rparr>), \<lparr>next_addr = 0, calls = []\<rparr>)"
proof -
  have h: "all_fail [number, string] (VBoolean True) \<lparr>next_addr = 0, calls = []\<rparr> =
     Some ([''not a number'', ''not a string''], \<lparr>next_addr = 0, calls = []\<rparr>)"
    by (simp add: number_def string_def failure_def)
  have n: "numbered [''not a number'', ''not a string''] =
     [''(1) not a number'', ''(2) not a string'']"
    by (simp add: numbered_def upt_rec show_nat.simps digit_def)
  show ?thesis using h or_all_fail [OF h] by (simp add: n)
qed

text \<open>
  Claim C5. \<^verbatim>\<open>or\<close> tries its children in declared order and returns the first success as
  the child returned it. If the children \<open>fs\<close> before \<open>s\<close> all fail, one after the other,
  and \<open>s\<close> then succeeds with \<open>r\<close>, leaving the world \<open>w2\<close>, then \<^verbatim>\<open>or\<close> returns that success
  and that world, whatever the later children \<open>ts\<close> are: none of them is run. In the witness
  the later children would add a call to the record and fail; the record shows the two
  calls of the first two predicates only.
\<close>

theorem or_first_success:
  assumes "all_fail fs input w = Some (ms, w1)"
    and "validate s input w1 = (Inr (Success r), w2)"
  shows "validate (or (fs @ s # ts)) input w = (Inr (Success r), w2)"
  using or_loop_first_success [OF assms] by (simp add: or_def)

theorem or_first_success_witness:
  "all_fail [predicate isZero] (VNumber (Finite 1)) \<lparr>next_addr = 0, calls = []\<rparr> =
     Some ([''predicate isZero not met: (value) => value === 0''],
           \<lparr>next_addr = 0, calls = [(''isZero'', VNumber (Finite 1))]\<rparr>) \<and>
   validate (predicate isOne) (VNumber (Finite 1))
       \<lparr>next_addr = 0, calls = [(''isZero'', VNumber (Finite 1))]\<rparr> =
     (Inr (Success (VNumber (Finite 1))),
      \<lparr>next_addr = 0, calls = [(''isZero'', VNumber (Finite 1)), (''isOne'', VNumber (Finite 1))]\<rparr>) \<and>
   validate (or ([predicate isZero] @ predicate isOne # [predicate isZero, never]))
       (VNumber (Finite 1)) \<lparr>next_addr = 0, calls = []\<rparr> =
     (Inr (Success (VNumber (Finite 1))),
      \<lparr>next_addr = 0, calls = [(''isZero'', VNumber (Finite 1)), (''isOne'', VNumber (Finite 1))]\<rparr>)"
proof -
  have h1: "all_fail [predicate isZero] (VNumber (Finite 1)) \<lparr>next_addr = 0, calls = []\<rparr> =
     Some ([''predicate isZero not met: (value) => value === 0''],
           \<lparr>next_addr = 0, calls = [(''isZero'', VNumber (Finite 1))]\<rparr>)"
    by (simp add: predicate_def isZero_def invoke_def failure_def)
  have h2: "validate (predicate isOne) (VNumber (Finite 1))
       \<lparr>next_addr = 0, calls = [(''isZero'', VNumber (Finite 1))]\<rparr> =
     (Inr (Success (VNumber (Finite 1))),
      \<lparr>next_addr = 0, calls = [(''isZero'', VNumber (Finite 1)), (''isOne'', VNumber (Finite 1))]\<rparr>)"
    by (simp add: predicate_def isOne_def invoke_def)
  show ?thesis
    using h1 h2 or_first_success [OF h1 h2, of "[predicate isZero, never]"] by simp
qed

section \<open>\<^verbatim>\<open>convert\<close> and \<^verbatim>\<open>predicate\<close>\<close>

text \<open>
  Claim C7, as stated, fails: the \<^verbatim>\<open>catch\<close> clause converts the thrown value to a string
  outside any \<^verbatim>\<open>try\<close>. When the converter throws an object whose \<^verbatim>\<open>toString\<close> throws,
  \<^verbatim>\<open>String(e)\<close> throws in the \<^verbatim>\<open>catch\<close> clause and that exception leaves \<^verbatim>\<open>validate\<close>: no
  failure is returned.
\<close>

theorem convert_lets_exception_escape:
  "body throwing_unprintable VUndefined (next_addr \<lparr>next_addr = 0, calls = []\<rparr>) =
     (Inl (ThrownOther (Inl (ThrownError (Inr ''boom'')))), 0) \<and>
   validate (convert throwing_unprintable) VUndefined \<lparr>next_addr = 0, calls = []\<rparr> =
     (Inl (ThrownError (Inr ''boom'')), \<lparr>next_addr = 0, calls = [([], VUndefined)]\<rparr>)"
  by (simp add: convert_def invoke_def throwing_unprintable_def)

text \<open>
  Claim C7, amended. If the converter returns \<open>x\<close>, \<^verbatim>\<open>convert\<close> succeeds with \<open>x\<close>. If it
  throws an instance of \<^verbatim>\<open>Error\<close> whose message can be read, validation returns a failure
  with that message and an empty path; if it throws another value whose string form can
  be taken, a failure with that string form and an empty path. When the message of
  whatever the converter throws can be read, no exception leaves \<^verbatim>\<open>validate\<close>. The
  converter is called once.
\<close>

theorem convert_catches:
  "(body f v (next_addr w) = (Inr x, n) \<longrightarrow>
      validate (convert f) v w =
        (Inr (Success x), \<lparr>next_addr = n, calls = calls w @ [(name f, v)]\<rparr>)) \<and>
   (body g v (next_addr w) = (Inl (ThrownError (Inr m)), n') \<longrightarrow>
      validate (convert g) v w =
        (Inr (Failure \<lparr>message = m, path = []\<rparr>),
         \<lparr>next_addr = n', calls = calls w @ [(name g, v)]\<rparr>)) \<and>
   (body h v (next_addr w) = (Inl (ThrownOther (Inr s)), n'') \<longrightarrow>
      validate (convert h) v w =
        (Inr (Failure \<lparr>message = s, path = []\<rparr>),
         \<lparr>next_addr = n'', calls = calls w @ [(name h, v)]\<rparr>)) \<and>
   ((\<forall>e. fst (body k v (next_addr w)) = Inl e \<longrightarrow> (\<exists>msg. thrown_message e = Inr msg)) \<longrightarrow>
      (\<forall>t. fst (validate (convert k) v w) \<noteq> Inl t))"
  by (auto simp: convert_def invoke_def failure_def split: prod.splits sum.splits)

theorem convert_catches_witness:
  "body toText VUndefined (next_addr \<lparr>next_addr = 0, calls = []\<rparr>) =
     (Inr (VString ''undefined''), 0) \<and>
   validate (convert toText) VUndefined \<lparr>next_addr = 0, calls = []\<rparr> =
     (Inr (Success (VString ''undefined'')),
      \<lparr>next_addr = 0, calls = [(''toText'', VUndefined)]\<rparr>) \<and>
   body failing_parse VUndefined (next_addr \<lparr>next_addr = 0, calls = []\<rparr>) =
     (Inl (ThrownError (Inr ''Unexpected token'')), 0) \<and>
   thrown_message (ThrownError (Inr ''Unexpected token'')) = Inr ''Unexpected token'' \<and>
   validate (convert failing_parse) VUndefined \<lparr>next_addr = 0, calls = []\<rparr> =
     (Inr (Failure \<lparr>message = ''Unexpected token'', path = []\<rparr>),
      \<lparr>next_addr = 0, calls = [(''parse'', VUndefined)]\<rparr>) \<and>
   body throwing_zero VUndefined (next_addr \<lparr>next_addr = 0, calls = []\<rparr>) =
     (Inl (ThrownOther (Inr ''0'')), 0) \<and>
   validate (convert throwing_zero) VUndefined \<lparr>next_addr = 0, calls = []\<rparr> =
     (Inr (Failure \<lparr>message = ''0'', path = []\<rparr>),
      \<lparr>next_addr = 0, calls = [([], VUndefined)]\<rparr>) \<and>
   (\<forall>t. fst (validate (convert failing_parse) VUndefined \<lparr>next_addr = 0, calls = []\<rparr>) \<noteq> Inl t)"
proof -
  let ?w = "\<lparr>next_addr = 0, calls = []\<rparr>"
  have h1: "body toText VUndefined (next_addr ?w) = (Inr (VString ''undefined''), 0)"
    by (simp add: toText_def)
  have h2: "body failing_parse VUndefined (next_addr ?w) =
     (Inl (ThrownError (Inr ''Unexpected token'')), 0)"
    by (simp add: failing_parse_def)
  have h3: "body throwing_zero VUndefined (next_addr ?w) = (Inl (ThrownOther (Inr ''0'')), 0)"
    by (simp add: throwing_zero_def)
  have h4: "\<forall>e. fst (body failing_parse VUndefined (next_addr ?w)) = Inl e \<longrightarrow>
      (\<exists>msg. thrown_message e = Inr msg)"
    by (simp add: failing_parse_def)
  have n: "name toText = ''toText''" "name failing_parse = ''parse''" "name throwing_zero = []"
    by (simp_all add: toText_def failing_parse_def throwing_zero_def)
  show ?thesis
    using h1 h2 h3 h4
      convert_catches [of toText VUndefined ?w "VString ''undefined''" 0
        failing_parse "''Unexpected token''" 0 throwing_zero "''0''" 0 failing_parse]
    by (simp add: n)
qed

text \<open>
  Claim C8. One call of \<^verbatim>\<open>validate\<close> of \<^verbatim>\<open>predicate(f)\<close> calls \<open>f\<close> exactly once, on the
  value: the record of calls grows by that one call, whether \<open>f\<close> returns a truthy value
  (success with the same value), a falsy one (failure), or throws. The failure message is
  built from the name and the textual form of \<open>f\<close>, without another call.
\<close>

theorem predicate_calls_once:
  "calls (snd (validate (predicate f) v w)) = calls w @ [(name f, v)] \<and>
   (body f v (next_addr w) = (Inr b, n) \<and> truthy b \<longrightarrow>
      fst (validate (predicate f) v w) = Inr (Success v)) \<and>
   (body f v (next_addr w) = (Inr b, n) \<and> \<not> truthy b \<longrightarrow>
      fst (validate (predicate f) v w) =
        Inr (Failure \<lparr>message =
               (if name f \<noteq> [] then ''predicate '' @ name f @ '' not met: '' @ text_form f
                else ''predicate not met: '' @ text_form f),
             path = []\<rparr>))"
  by (auto simp: predicate_def invoke_def failure_def split: prod.splits sum.splits)

theorem predicate_calls_once_witness:
  "body isZero (VNumber (Finite 1)) (next_addr \<lparr>next_addr = 0, calls = []\<rparr>) = (Inr (VBoolean False), 0) \<and>
   \<not> truthy (VBoolean False) \<and>
   validate (predicate isZero) (VNumber (Finite 1)) \<lparr>next_addr = 0, calls = []\<rparr> =
     (Inr (Failure \<lparr>message = ''predicate isZero not met: (value) => value === 0'', path = []\<rparr>),
      \<lparr>next_addr = 0, calls = [(''isZero'', VNumber (Finite 1))]\<rparr>) \<and>
   body isZero (VNumber (Finite 0)) (next_addr \<lparr>next_addr = 0, calls = []\<rparr>) = (Inr (VBoolean True), 0) \<and>
   truthy (VBoolean True) \<and>
   validate (predicate isZero) (VNumber (Finite 0)) \<lparr>next_addr = 0, calls = []\<rparr> =
     (Inr (Success (VNumber (Finite 0))),
      \<lparr>next_addr = 0, calls = [(''isZero'', VNumber (Finite 0))]\<rparr>)"
proof -
  have h1: "body isZero (VNumber (Finite 1)) (next_addr \<lparr>next_addr = 0, calls = []\<rparr>) =
     (Inr (VBoolean False), 0)"
    by (simp add: isZero_def)
  have h2: "body isZero (VNumber (Finite 0)) (next_addr \<lparr>next_addr = 0, calls = []\<rparr>) =
     (Inr (VBoolean True), 0)"
    by (simp add: isZero_def)
  have n: "name isZero = ''isZero''" "text_form isZero = ''(value) => value === 0''"
    by (simp_all add: isZero_def)
  have w: "next_addr (snd (validate (predicate isZero) v \<lparr>next_addr = 0, calls = []\<rparr>)) = 0" for v
    by (simp add: predicate_def invoke_def isZero_def)
  show ?thesis
    using h1 h2 w [of "VNumber (Finite 1)"] w [of "VNumber (Finite 0)"]
      predicate_calls_once [of isZero "VNumber (Finite 1)" "\<lparr>next_addr = 0, calls = []\<rparr>" "VBoolean False" 0]
      predicate_calls_once [of isZero "VNumber (Finite 0)" "\<lparr>next_addr = 0, calls = []\<rparr>" "VBoolean True" 0]
    by (auto simp: n prod_eq_iff world.equality)
qed

section \<open>Leaf schemas\<close>

text \<open>
  Claim C3. For a leaf schema or a \<^verbatim>\<open>predicate\<close> schema, a successful validation returns
  the very value it was given: the same primitive, or the same object with the same
  reference.
\<close>

theorem non_converting_identity:
  assumes "s \<in> set leaf_schemas \<or> s = predicate f"
    and "validate s v w = (Inr (Success r), w')"
  shows "r = v"
  using assms
  by (auto simp: leaf_schemas_def boolean_def number_def bigint_def string_def symbol_def
      unknown_def any_def never_def object_def predicate_def failure_def
      split: if_splits prod.splits sum.splits)

theorem non_converting_identity_witness:
  "(number \<in> set leaf_schemas \<or> number = predicate isZero) \<and>
   validate number (VNumber NaN) \<lparr>next_addr = 0, calls = []\<rparr> =
     (Inr (Success (VNumber NaN)), \<lparr>next_addr = 0, calls = []\<rparr>) \<and>
   (predicate isZero \<in> set leaf_schemas \<or> predicate isZero = predicate isZero) \<and>
   validate (predicate isZero) (VNumber (Finite 0)) \<lparr>next_addr = 0, calls = []\<rparr> =
     (Inr (Success (VNumber (Finite 0))), \<lparr>next_addr = 0, calls = [(''isZero'', VNumber (Finite 0))]\<rparr>)"
proof -
  have h1: "number \<in> set leaf_schemas \<or> number = predicate isZero"
    by (simp add: leaf_schemas_def)
  obtain r w' where h2: "validate number (VNumber NaN) \<lparr>next_addr = 0, calls = []\<rparr> = (Inr (Success r), w')"
    by (simp add: number_def)
  have h3: "predicate isZero \<in> set leaf_schemas \<or> predicate isZero = predicate isZero"
    by simp
  obtain r' w'' where h4: "validate (predicate isZero) (VNumber (Finite 0)) \<lparr>next_addr = 0, calls = []\<rparr> = (Inr (Success r'), w'')"
    by (simp add: predicate_def invoke_def isZero_def)
  have w: "w' = \<lparr>next_addr = 0, calls = []\<rparr>" using h2 by (simp add: number_def)
  have w2: "w'' = \<lparr>next_addr = 0, calls = [(''isZero'', VNumber (Finite 0))]\<rparr>"
    using h4 by (auto simp: predicate_def invoke_def isZero_def)
  show ?thesis
    using h1 h2 h3 h4 non_converting_identity [OF h1 h2] non_converting_identity [OF h3 h4] w w2
    by simp
qed

section \<open>Objects and arrays\<close>

subsection \<open>The two loops of \<^verbatim>\<open>object(properties)\<close>\<close>

lemma show_nat_small:
  "show_nat 0 = ''0''" "show_nat (Suc 0) = ''1''" "show_nat (Suc (Suc 0)) = ''2''"
  by (simp_all add: show_nat.simps digit_def)

lemma partition_properties:
  "partition (\<lambda>(k, p). is_optional p) properties =
     (filter (\<lambda>(k, p). is_optional p) properties, required_properties properties)"
  by (simp add: required_properties_def comp_def case_prod_unfold)



lemma validate_objectFunction:
  "validate (objectFunction properties) value w =
     (if typeof value \<noteq> ''object'' \<or> value = VNull
      then (Inr (failure ''not an object'' []), w)
      else
        (case validate_required (required_properties properties) value value w of
           (Throws e, w1) \<Rightarrow> (Inl e, w1)
         | (Returns r, w1) \<Rightarrow> (Inr r, w1)
         | (Completes changedValue, w1) \<Rightarrow>
             (case validate_optional (filter (\<lambda>(k, p). is_optional p) properties)
                     value changedValue w1 of
                (Throws e, w2) \<Rightarrow> (Inl e, w2)
              | (Returns r, w2) \<Rightarrow> (Inr r, w2)
              | (Completes changedValue', w2) \<Rightarrow> (Inr (Success changedValue'), w2))))"
  by (simp add: objectFunction_def partition_properties del: partition_filter_conv)


lemma validate_required_unchanged:
  assumes "\<forall>(k, p) \<in> set ps. has_property value k \<and>
     (\<exists>r. validate (property_schema p) (get_property value k) w = (Inr (Success r), w) \<and>
          strict_eq r (get_property value k))"
  shows "validate_required ps value changedValue w = (Completes changedValue, w)"
  using assms by (induction ps) auto

lemma validate_optional_unchanged:
  assumes "\<forall>(k, p) \<in> set ps. has_property value k \<longrightarrow>
     (\<exists>r. validate (property_schema p) (get_property value k) w = (Inr (Success r), w) \<and>
          strict_eq r (get_property value k))"
  shows "validate_optional ps value changedValue w = (Completes changedValue, w)"
  using assms by (induction ps) auto

lemma validate_required_path:
  "validate_required ps value changedValue w = (Returns r, w') \<Longrightarrow>
   \<exists>e q k. r = Failure e \<and> path e = q @ [PKey k]"
proof (induction ps arbitrary: changedValue w)
  case Nil
  then show ?case by simp
next
  case (Cons a ps)
  obtain k p where a: "a = (k, p)" by (cases a)
  from Cons show ?case
    by (auto simp: a failure_def split: if_splits prod.splits sum.splits result.splits)
qed

lemma validate_optional_path:
  "validate_optional ps value changedValue w = (Returns r, w') \<Longrightarrow>
   \<exists>e q k. r = Failure e \<and> path e = q @ [PKey k]"
proof (induction ps arbitrary: changedValue w)
  case Nil
  then show ?case by simp
next
  case (Cons a ps)
  obtain k p where a: "a = (k, p)" by (cases a)
  from Cons show ?case
    by (auto simp: a failure_def split: if_splits prod.splits sum.splits result.splits)
qed

lemma objectFunction_failure_path:
  assumes "typeof value = ''object''" and "value \<noteq> VNull"
    and "validate (objectFunction properties) value w = (Inr (Failure e), w')"
  shows "\<exists>q k. path e = q @ [PKey k]"
  using assms unfolding validate_objectFunction
  by (auto split: prod.splits loop_exit.splits
      dest!: validate_required_path validate_optional_path)

lemma objectFunction_unchanged:
  assumes "typeof value = ''object''" and "value \<noteq> VNull"
    and "\<forall>(k, p) \<in> set properties.
       (\<not> is_optional p \<longrightarrow> has_property value k) \<and>
       (has_property value k \<longrightarrow>
          (\<exists>r. validate (property_schema p) (get_property value k) w = (Inr (Success r), w) \<and>
               strict_eq r (get_property value k)))"
  shows "validate (objectFunction properties) value w = (Inr (Success value), w)"
proof -
  have r: "validate_required (required_properties properties) value value w = (Completes value, w)"
    using assms(3) by (intro validate_required_unchanged) (auto simp: required_properties_def)
  have opt: "validate_optional (filter (\<lambda>(k, p). is_optional p) properties) value value w =
      (Completes value, w)"
    using assms(3) by (intro validate_optional_unchanged) auto
  show ?thesis
    unfolding validate_objectFunction using assms(1,2) by (simp add: r opt)
qed

text \<open>
  Child validators without side effect, the one of key \<open>k\<close> returning \<open>f k\<close>: the input is
  returned as it is when no result differs from the input's value; otherwise the result is
  a new object, the own enumerable properties of the input with the changed keys
  overwritten, and one object is allocated for each changed key.
\<close>

lemma validate_required_pure:
  assumes "\<forall>(k, p) \<in> set ps. has_property value k \<and>
      (\<forall>w'. validate (property_schema p) (get_property value k) w' = (Inr (Success (f k)), w'))"
  shows "validate_required ps value c w =
     (if changed_entries f value ps = [] then (Completes c, w)
      else (Completes (VObject (next_addr w + length (changed_entries f value ps) - 1)
                (fold (\<lambda>(k, p). AList.update k (f k)) (changed_entries f value ps)
                   (own_enumerable c))),
            w\<lparr>next_addr := next_addr w + length (changed_entries f value ps)\<rparr>))"
  using assms
proof (induction ps arbitrary: c w)
  case Nil
  then show ?case by (simp add: changed_entries_def)
next
  case (Cons a ps)
  obtain k p where a: "a = (k, p)" by (cases a)
  from Cons.prems have IH: "validate_required ps value c' w' =
     (if changed_entries f value ps = [] then (Completes c', w')
      else (Completes (VObject (next_addr w' + length (changed_entries f value ps) - 1)
                (fold (\<lambda>(k, p). AList.update k (f k)) (changed_entries f value ps)
                   (own_enumerable c'))),
            w'\<lparr>next_addr := next_addr w' + length (changed_entries f value ps)\<rparr>))" for c' w'
    by (intro Cons.IH) simp
  from Cons.prems have k: "has_property value k"
    and v: "\<And>w'. validate (property_schema p) (get_property value k) w' = (Inr (Success (f k)), w')"
    by (simp_all add: a)
  show ?case
    by (simp add: a k v IH spread_with_def changed_entries_def)
qed

lemma validate_optional_pure:
  assumes "\<forall>(k, p) \<in> set ps. has_property value k \<longrightarrow>
      (\<forall>w'. validate (property_schema p) (get_property value k) w' = (Inr (Success (f k)), w'))"
  shows "validate_optional ps value c w =
     (if changed_entries f value ps = [] then (Completes c, w)
      else (Completes (VObject (next_addr w + length (changed_entries f value ps) - 1)
                (fold (\<lambda>(k, p). AList.update k (f k)) (changed_entries f value ps)
                   (own_enumerable c))),
            w\<lparr>next_addr := next_addr w + length (changed_entries f value ps)\<rparr>))"
  using assms
proof (induction ps arbitrary: c w)
  case Nil
  then show ?case by (simp add: changed_entries_def)
next
  case (Cons a ps)
  obtain k p where a: "a = (k, p)" by (cases a)
  from Cons.prems have IH: "validate_optional ps value c' w' =
     (if changed_entries f value ps = [] then (Completes c', w')
      else (Completes (VObject (next_addr w' + length (changed_entries f value ps) - 1)
                (fold (\<lambda>(k, p). AList.update k (f k)) (changed_entries f value ps)
                   (own_enumerable c'))),
            w'\<lparr>next_addr := next_addr w' + length (changed_entries f value ps)\<rparr>))" for c' w'
    by (intro Cons.IH) simp
  show ?case
  proof (cases "has_property value k")
    case True
    with Cons.prems have
      v: "\<And>w'. validate (property_schema p) (get_property value k) w' = (Inr (Success (f k)), w')"
      by (simp add: a)
    show ?thesis
      by (simp add: a True v IH spread_with_def changed_entries_def)
  next
    case False
    then show ?thesis
      by (simp add: a IH changed_entries_def)
  qed
qed


lemma changed_entries_append:
  "changed_entries f value (ps @ qs) = changed_entries f value ps @ changed_entries f value qs"
  by (simp add: changed_entries_def)

lemma objectFunction_pure:
  assumes "typeof value = ''object''" and "value \<noteq> VNull"
    and "\<forall>(k, p) \<in> set properties.
       (\<not> is_optional p \<longrightarrow> has_property value k) \<and>
       (has_property value k \<longrightarrow>
          (\<forall>w'. validate (property_schema p) (get_property value k) w' = (Inr (Success (f k)), w')))"
  shows "validate (objectFunction properties) value w =
     (let changed = changed_entries f value
            (required_properties properties @ filter (\<lambda>(k, p). is_optional p) properties) in
      if changed = [] then (Inr (Success value), w)
      else (Inr (Success (VObject (next_addr w + length changed - 1)
                (fold (\<lambda>(k, p). AList.update k (f k)) changed (own_enumerable value)))),
            w\<lparr>next_addr := next_addr w + length changed\<rparr>))"
proof -
  let ?R = "required_properties properties"
  let ?O = "filter (\<lambda>(k, p). is_optional p) properties"
  have r: "validate_required ?R value c w' =
     (if changed_entries f value ?R = [] then (Completes c, w')
      else (Completes (VObject (next_addr w' + length (changed_entries f value ?R) - 1)
                (fold (\<lambda>(k, p). AList.update k (f k)) (changed_entries f value ?R)
                   (own_enumerable c))),
            w'\<lparr>next_addr := next_addr w' + length (changed_entries f value ?R)\<rparr>))" for c w'
    using assms(3) by (intro validate_required_pure) (auto simp: required_properties_def)
  have opt: "validate_optional ?O value c w' =
     (if changed_entries f value ?O = [] then (Completes c, w')
      else (Completes (VObject (next_addr w' + length (changed_entries f value ?O) - 1)
                (fold (\<lambda>(k, p). AList.update k (f k)) (changed_entries f value ?O)
                   (own_enumerable c))),
            w'\<lparr>next_addr := next_addr w' + length (changed_entries f value ?O)\<rparr>))" for c w'
    using assms(3) by (intro validate_optional_pure) auto
  have len: "xs \<noteq> [] \<Longrightarrow> ys \<noteq> [] \<Longrightarrow>
      n + length xs + length ys - Suc 0 = n + (length xs + length ys) - Suc 0" for xs ys :: "'a list" and n
    by simp
  show ?thesis
    unfolding validate_objectFunction
    using assms(1,2)
    by (auto simp: r opt changed_entries_append Let_def add.assoc)
qed

text \<open>
  Child validators of any kind, run as \<open>run_properties\<close> runs them: the loops end normally
  in the same world, with the input itself when no result differed.
\<close>

lemma run_properties_changed:
  "run_properties ps value True w = Some (changed, w') \<Longrightarrow> changed"
proof (induction ps arbitrary: w)
  case Nil
  then show ?case by simp
next
  case (Cons a ps)
  obtain k p where a: "a = (k, p)" by (cases a)
  from Cons show ?case
    by (auto simp: a split: if_splits prod.splits sum.splits result.splits)
qed

lemma run_properties_append:
  "run_properties (ps @ qs) value changed w =
     (case run_properties ps value changed w of
        Some (changed1, w1) \<Rightarrow> run_properties qs value changed1 w1
      | None \<Rightarrow> None)"
proof (induction ps arbitrary: changed w)
  case Nil
  then show ?case by simp
next
  case (Cons a ps)
  obtain k p where a: "a = (k, p)" by (cases a)
  show ?case
    by (simp add: a Cons.IH split: prod.splits sum.splits result.splits)
qed

lemma validate_required_run:
  assumes "\<forall>(k, p) \<in> set ps. has_property value k"
    and "run_properties ps value changed w = Some (changed', w')"
  shows "\<exists>c'. validate_required ps value c w = (Completes c', w') \<and> (\<not> changed' \<longrightarrow> c' = c)"
  using assms
proof (induction ps arbitrary: changed w c)
  case Nil
  then show ?case by simp
next
  case (Cons a ps)
  obtain k p where a: "a = (k, p)" by (cases a)
  from Cons.prems(1) have k: "has_property value k" and rest: "\<forall>(k, p) \<in> set ps. has_property value k"
    by (simp_all add: a)
  from Cons.prems(2) k obtain r w1 where
    v: "validate (property_schema p) (get_property value k) w = (Inr (Success r), w1)"
    by (auto simp: a split: prod.splits sum.splits result.splits)
  show ?case
  proof (cases "strict_eq r (get_property value k)")
    case True
    with Cons.prems(2) k v have "run_properties ps value changed w1 = Some (changed', w')"
      by (simp add: a)
    from Cons.IH [OF rest this, of c] show ?thesis
      using k v True by (simp add: a)
  next
    case False
    with Cons.prems(2) k v have run:
      "run_properties ps value True (w1\<lparr>next_addr := Suc (next_addr w1)\<rparr>) = Some (changed', w')"
      by (simp add: a)
    then have "changed'" by (rule run_properties_changed)
    with Cons.IH [OF rest run] show ?thesis
      using k v False by (simp add: a spread_with_def)
  qed
qed

lemma validate_optional_run:
  assumes "run_properties ps value changed w = Some (changed', w')"
  shows "\<exists>c'. validate_optional ps value c w = (Completes c', w') \<and> (\<not> changed' \<longrightarrow> c' = c)"
  using assms
proof (induction ps arbitrary: changed w c)
  case Nil
  then show ?case by simp
next
  case (Cons a ps)
  obtain k p where a: "a = (k, p)" by (cases a)
  show ?case
  proof (cases "has_property value k")
    case absent: False
    with Cons.prems have "run_properties ps value changed w = Some (changed', w')"
      by (simp add: a)
    from Cons.IH [OF this, of c] show ?thesis
      using absent by (simp add: a)
  next
    case k: True
    from Cons.prems k obtain r w1 where
      v: "validate (property_schema p) (get_property value k) w = (Inr (Success r), w1)"
      by (auto simp: a split: prod.splits sum.splits result.splits)
    show ?thesis
    proof (cases "strict_eq r (get_property value k)")
      case True
      with Cons.prems k v have "run_properties ps value changed w1 = Some (changed', w')"
        by (simp add: a)
      from Cons.IH [OF this, of c] show ?thesis
        using k v True by (simp add: a)
    next
      case False
      with Cons.prems k v have run:
        "run_properties ps value True (w1\<lparr>next_addr := Suc (next_addr w1)\<rparr>) = Some (changed', w')"
        by (simp add: a)
      then have "changed'" by (rule run_properties_changed)
      with Cons.IH [OF run] show ?thesis
        using k v False by (simp add: a spread_with_def)
    qed
  qed
qed

lemma objectFunction_run:
  assumes "typeof value = ''object''" and "value \<noteq> VNull"
    and "\<forall>(k, p) \<in> set (required_properties properties). has_property value k"
    and "run_properties (required_properties properties @ optional_properties properties)
           value False w = Some (changed, w')"
  shows "\<exists>r. validate (objectFunction properties) value w = (Inr (Success r), w') \<and>
             (\<not> changed \<longrightarrow> r = value)"
proof -
  from assms(4) obtain changed1 w1 where
    r: "run_properties (required_properties properties) value False w = Some (changed1, w1)"
    and opt: "run_properties (optional_properties properties) value changed1 w1 = Some (changed, w')"
    by (auto simp: run_properties_append split: option.splits)
  from validate_required_run [OF assms(3) r, of "value"] obtain c1 where
    c1: "validate_required (required_properties properties) value value w = (Completes c1, w1)"
      "\<not> changed1 \<longrightarrow> c1 = value"
    by blast
  from validate_optional_run [OF opt, of c1] obtain c2 where
    c2: "validate_optional (optional_properties properties) value c1 w1 = (Completes c2, w')"
      "\<not> changed \<longrightarrow> c2 = c1"
    by blast
  have "changed1 \<Longrightarrow> changed"
  proof -
    assume changed1
    with opt have "run_properties (optional_properties properties) value True w1 =
        Some (changed, w')"
      by simp
    then show changed by (rule run_properties_changed)
  qed
  with c1 c2 have "\<not> changed \<longrightarrow> c2 = value" by blast
  then show ?thesis
    unfolding validate_objectFunction using assms(1,2) c1(1) c2(1)
    by (simp add: optional_properties_def)
qed

subsection \<open>The loop of \<^verbatim>\<open>Array_(element)\<close>\<close>

lemma validate_elements_unchanged:
  assumes "\<forall>j. i \<le> j \<and> j < length (elements value) \<longrightarrow>
     (\<exists>r. validate element (elements value ! j) w = (Inr (Success r), w) \<and>
          strict_eq r (elements value ! j))"
  shows "validate_elements element value i changedValue w = (Completes changedValue, w)"
  using assms
proof (induction "length (elements value) - i" arbitrary: i)
  case 0
  then show ?case by (simp add: validate_elements.simps)
next
  case (Suc n)
  then have i: "i < length (elements value)" by simp
  with Suc.prems obtain r where r: "validate element (elements value ! i) w = (Inr (Success r), w)"
    "strict_eq r (elements value ! i)"
    by auto
  have "validate_elements element value (Suc i) changedValue w = (Completes changedValue, w)"
    using Suc.hyps(2) Suc.prems by (intro Suc.hyps(1)) auto
  then show ?case
    using i r by (subst validate_elements.simps) simp
qed

lemma Array_unchanged:
  assumes "\<forall>x \<in> set xs. \<exists>r. validate element x w = (Inr (Success r), w) \<and> strict_eq r x"
  shows "validate (Array element) (VArray a xs) w = (Inr (Success (VArray a xs)), w)"
proof -
  have "validate_elements element (VArray a xs) 0 (VArray a xs) w = (Completes (VArray a xs), w)"
    using assms by (intro validate_elements_unchanged) auto
  then show ?thesis by (simp add: Array_def)
qed

lemma validate_elements_path:
  "validate_elements element value i changedValue w = (Returns r, w') \<Longrightarrow>
   \<exists>e j q. r = Failure e \<and> path e = PIndex j # q"
proof (induction "length (elements value) - i" arbitrary: i changedValue w)
  case 0
  then show ?case by (simp add: validate_elements.simps)
next
  case (Suc n)
  then have i: "i < length (elements value)" by simp
  have n: "n = length (elements value) - Suc i" using Suc.hyps(2) by simp
  from Suc.prems i show ?case
    by (subst (asm) validate_elements.simps)
       (auto simp: failure_def split: prod.splits sum.splits result.splits if_splits
          dest: Suc.hyps(1) [OF n])
qed

lemma Array_failure_path:
  assumes "validate (Array element) value w = (Inr (Failure e), w')" and "isArray value"
  shows "\<exists>j q. path e = PIndex j # q"
  using assms
  by (auto simp: Array_def split: prod.splits loop_exit.splits dest!: validate_elements_path)

text \<open>
  A child validator without side effect, returning \<open>f x\<close> for the element \<open>x\<close>: the input is
  returned as it is when no result differs from its element; otherwise the result is a new
  array in which the changed positions carry the new values and the others the elements
  of the input, and one array is allocated for each changed element.
\<close>

lemma validate_elements_pure:
  assumes pure: "\<forall>x \<in> set (elements value). \<forall>w'. validate element x w' = (Inr (Success (f x)), w')"
    and ys: "length (elements c) = length (elements value)"
      "drop i (elements c) = drop i (elements value)"
    and i: "i \<le> length (elements value)"
  shows "validate_elements element value i c w =
     (let changed = filter (\<lambda>x. \<not> strict_eq (f x) x) (drop i (elements value)) in
      if changed = [] then (Completes c, w)
      else (Completes (VArray (next_addr w + length changed - 1)
                (take i (elements c) @
                 map (\<lambda>x. if strict_eq (f x) x then x else f x) (drop i (elements value)))),
            w\<lparr>next_addr := next_addr w + length changed\<rparr>))"
  using ys i
proof (induction "length (elements value) - i" arbitrary: i c w)
  case 0
  then show ?case by (simp add: validate_elements.simps)
next
  case (Suc n)
  let ?xs = "elements value"
  let ?g = "\<lambda>x. if strict_eq (f x) x then x else f x"
  from Suc.hyps(2) have i: "i < length ?xs" by simp
  then have x: "?xs ! i \<in> set ?xs" by simp
  have v: "validate element (?xs ! i) w' = (Inr (Success (f (?xs ! i))), w')" for w'
    using pure x by blast
  have d: "drop i ?xs = ?xs ! i # drop (Suc i) ?xs"
    using i by (simp add: Cons_nth_drop_Suc)
  have n: "n = length ?xs - Suc i" using Suc.hyps(2) by simp
  show ?case
  proof (cases "strict_eq (f (?xs ! i)) (?xs ! i)")
    case True
    have dc: "drop (Suc i) (elements c) = drop (Suc i) ?xs"
      using Suc.prems(2) by (metis drop_Suc tl_drop)
    have tk: "take (Suc i) (elements c) = take i (elements c) @ [?xs ! i]"
      using i Suc.prems(1,2) by (metis nth_via_drop d take_Suc_conv_app_nth)
    have IH: "validate_elements element value (Suc i) c w =
     (let changed = filter (\<lambda>x. \<not> strict_eq (f x) x) (drop (Suc i) ?xs) in
      if changed = [] then (Completes c, w)
      else (Completes (VArray (next_addr w + length changed - 1)
                (take (Suc i) (elements c) @ map ?g (drop (Suc i) ?xs))),
            w\<lparr>next_addr := next_addr w + length changed\<rparr>))"
      using i by (intro Suc.hyps(1) [OF n Suc.prems(1) dc]) simp
    show ?thesis
      using i True by (subst validate_elements.simps) (simp add: v IH d tk Let_def)
  next
    case False
    define c1 where "c1 = VArray (next_addr w) (take i (elements c) @ [f (?xs ! i)] @ drop (Suc i) (elements c))"
    define w1 where "w1 = w\<lparr>next_addr := Suc (next_addr w)\<rparr>"
    have ic: "i < length (elements c)" using i Suc.prems(1) by simp
    have l1: "length (elements c1) = length ?xs"
      using ic Suc.prems(1) by (simp add: c1_def)
    have dc: "drop (Suc i) (elements c1) = drop (Suc i) ?xs"
    proof -
      have "drop (Suc i) (elements c) = drop (Suc i) ?xs"
        using Suc.prems(2) by (metis drop_Suc tl_drop)
      then show ?thesis using ic by (simp add: c1_def)
    qed
    have tk: "take (Suc i) (elements c1) = take i (elements c) @ [f (?xs ! i)]"
      using ic by (simp add: c1_def)
    have IH: "validate_elements element value (Suc i) c1 w1 =
     (let changed = filter (\<lambda>x. \<not> strict_eq (f x) x) (drop (Suc i) ?xs) in
      if changed = [] then (Completes c1, w1)
      else (Completes (VArray (next_addr w1 + length changed - 1)
                (take (Suc i) (elements c1) @ map ?g (drop (Suc i) ?xs))),
            w1\<lparr>next_addr := next_addr w1 + length changed\<rparr>))"
      using i by (intro Suc.hyps(1) [OF n l1 dc]) simp
    have nomap: "filter (\<lambda>x. \<not> strict_eq (f x) x) zs = [] \<Longrightarrow> map ?g zs = zs" for zs
      by (induction zs) (auto split: if_splits)
    have dcs: "drop (Suc i) (elements c) = drop (Suc i) ?xs"
      using Suc.prems(2) by (metis drop_Suc tl_drop)
    have step: "validate_elements element value i c w = validate_elements element value (Suc i) c1 w1"
      using i False
      by (subst validate_elements.simps) (simp add: v toSpliced_def c1_def w1_def)
    have fl: "filter (\<lambda>x. \<not> strict_eq (f x) x) (drop i ?xs) =
        ?xs ! i # filter (\<lambda>x. \<not> strict_eq (f x) x) (drop (Suc i) ?xs)"
      using False by (subst d) simp
    have mp: "map ?g (drop i ?xs) = f (?xs ! i) # map ?g (drop (Suc i) ?xs)"
      using False by (subst d) simp
    show ?thesis
    proof (cases "filter (\<lambda>x. \<not> strict_eq (f x) x) (drop (Suc i) ?xs) = []")
      case True
      then have "validate_elements element value i c w = (Completes c1, w1)"
        by (simp add: step IH Let_def)
      moreover have "c1 = VArray (next_addr w) (take i (elements c) @ map ?g (drop i ?xs))"
        unfolding mp using nomap [OF True] by (simp add: c1_def dcs)
      ultimately show ?thesis
        by (simp add: fl True w1_def Let_def)
    next
      case F: False
      then have "validate_elements element value i c w =
          (Completes (VArray (next_addr w1 + length (filter (\<lambda>x. \<not> strict_eq (f x) x)
                                (drop (Suc i) ?xs)) - 1)
               (take (Suc i) (elements c1) @ map ?g (drop (Suc i) ?xs))),
           w1\<lparr>next_addr := next_addr w1 + length (filter (\<lambda>x. \<not> strict_eq (f x) x)
                                (drop (Suc i) ?xs))\<rparr>)"
        by (simp add: step IH Let_def)
      then show ?thesis
        using F by (simp add: fl mp tk w1_def Let_def)
    qed
  qed
qed


lemma Array_pure:
  assumes "\<forall>x \<in> set xs. \<forall>w'. validate element x w' = (Inr (Success (f x)), w')"
  shows "validate (Array element) (VArray a xs) w =
     (let changed = filter (\<lambda>x. \<not> strict_eq (f x) x) xs in
      if changed = [] then (Inr (Success (VArray a xs)), w)
      else (Inr (Success (VArray (next_addr w + length changed - 1)
                (map (\<lambda>x. if strict_eq (f x) x then x else f x) xs))),
            w\<lparr>next_addr := next_addr w + length changed\<rparr>))"
proof -
  have "validate_elements element (VArray a xs) 0 (VArray a xs) w =
     (let changed = filter (\<lambda>x. \<not> strict_eq (f x) x) (drop 0 (elements (VArray a xs))) in
      if changed = [] then (Completes (VArray a xs), w)
      else (Completes (VArray (next_addr w + length changed - 1)
                (take 0 (elements (VArray a xs)) @
                 map (\<lambda>x. if strict_eq (f x) x then x else f x) (drop 0 (elements (VArray a xs))))),
            w\<lparr>next_addr := next_addr w + length changed\<rparr>))"
    using assms by (intro validate_elements_pure) simp_all
  then show ?thesis by (simp add: Array_def Let_def)
qed

subsection \<open>Order of the checks\<close>



subsection \<open>Array inputs of \<^verbatim>\<open>object(properties)\<close>\<close>

text \<open>
  Keys that an input inherits are in it: \<^verbatim>\<open>object({toString: unknown, o: optional(number)})\<close>
  against \<^verbatim>\<open>{o: 'x'}\<close> finds the required key \<open>toString\<close> and fails on the optional key;
  \<^verbatim>\<open>object({at: optional(number)})\<close> against \<^verbatim>\<open>['x']\<close> finds the key \<open>at\<close> and fails on it, the
  method not being a number.
\<close>

lemma inherited_key_examples:
  "validate (objectFunction [(KString ''toString'', Schema unknown), (KString ''o'', optional number)])
     (VObject 0 [(KString ''o'', VString ''x'')]) \<lparr>next_addr = 1, calls = []\<rparr> =
     (Inr (Failure \<lparr>message = ''not a number'', path = [PKey (KString ''o'')]\<rparr>),
      \<lparr>next_addr = 1, calls = []\<rparr>)"
  "validate (objectFunction [(KString ''at'', optional number)]) (VArray 0 [VString ''x''])
     \<lparr>next_addr = 1, calls = []\<rparr> =
     (Inr (Failure \<lparr>message = ''not a number'', path = [PKey (KString ''at'')]\<rparr>),
      \<lparr>next_addr = 1, calls = []\<rparr>)"
  by (simp_all add: optional_def objectFunction_def unknown_def number_def failure_def
      lookup_simps show_nat_small)

text \<open>
  Claim C9, as stated, fails. \<^verbatim>\<open>object({0: optional(number)})\<close> has no required key, so the
  required keys of the array \<^verbatim>\<open>['x']\<close> are all present and valid, and yet validation fails,
  on the optional key \<open>0\<close>, which is present and invalid. And in
  \<^verbatim>\<open>object({0: convert(toText)})\<close> against \<^verbatim>\<open>[undefined]\<close> the required key is present and
  valid, and validation succeeds, but what it returns is a new plain object, not the
  array.
\<close>

theorem object_rejects_array_with_invalid_optional:
  "isArray (VArray 0 [VString ''x'']) \<and>
   required_properties [(KString ''0'', optional number)] = [] \<and>
   validate (objectFunction [(KString ''0'', optional number)]) (VArray 0 [VString ''x''])
     \<lparr>next_addr = 1, calls = []\<rparr> =
     (Inr (Failure \<lparr>message = ''not a number'', path = [PKey (KString ''0'')]\<rparr>),
      \<lparr>next_addr = 1, calls = []\<rparr>) \<and>
   isArray (VArray 0 [VUndefined]) \<and>
   has_property (VArray 0 [VUndefined]) (KString ''0'') \<and>
   validate (objectFunction [(KString ''0'', Schema (convert toText))]) (VArray 0 [VUndefined])
     \<lparr>next_addr = 1, calls = []\<rparr> =
     (Inr (Success (VObject 1 [(KString ''0'', VString ''undefined'')])),
      \<lparr>next_addr = 2, calls = [(''toText'', VUndefined)]\<rparr>)"
  by (simp add: required_properties_def optional_def objectFunction_def lookup_simps
      number_def failure_def show_nat_small convert_def invoke_def toText_def spread_with_def)

text \<open>
  Claim C9, amended. \<^verbatim>\<open>object(properties)\<close> does not reject an array as
  \<^verbatim>\<open>not an object\<close>: its guard lets arrays pass. For every array input whose required keys
  are all in it and whose declared keys that are in it (required or optional) all
  validate successfully, in the order of the code, validation succeeds; and it returns
  the array itself when every one of these results is \<^verbatim>\<open>===\<close> to the value in the input, in
  particular for any array against \<^verbatim>\<open>object({})\<close>. The child validators are of any kind: in
  the witness one is a predicate, whose call is recorded, and one validates a method
  that the array inherits.
\<close>

theorem object_accepts_arrays:
  assumes "isArray value"
  shows "fst (validate (objectFunction properties) value w) \<noteq>
            Inr (Failure \<lparr>message = ''not an object'', path = []\<rparr>) \<and>
         ((\<forall>(k, p) \<in> set (required_properties properties). has_property value k) \<and>
          run_properties (required_properties properties @ optional_properties properties)
            value False w = Some (changed, w') \<longrightarrow>
          (\<exists>r. validate (objectFunction properties) value w = (Inr (Success r), w') \<and>
               (\<not> changed \<longrightarrow> r = value)))"
proof -
  from assms have t: "typeof value = ''object''" "value \<noteq> VNull"
    by (induction "value" rule: isArray.induct; simp)+
  have "fst (validate (objectFunction properties) value w) \<noteq>
            Inr (Failure \<lparr>message = ''not an object'', path = []\<rparr>)"
  proof
    assume "fst (validate (objectFunction properties) value w) =
            Inr (Failure \<lparr>message = ''not an object'', path = []\<rparr>)"
    then obtain w' where "validate (objectFunction properties) value w =
        (Inr (Failure \<lparr>message = ''not an object'', path = []\<rparr>), w')"
      by (cases "validate (objectFunction properties) value w") auto
    from objectFunction_failure_path [OF t this] show False by simp
  qed
  then show ?thesis
    using objectFunction_run [OF t] by blast
qed

theorem object_accepts_arrays_witness:
  "isArray (VArray 0 [VNumber (Finite 0)]) \<and>
   required_properties [(KString ''0'', Schema (predicate isZero)), (KString ''1'', optional string),
       (KString ''length'', Schema number), (KString ''at'', optional unknown)] =
     [(KString ''0'', Schema (predicate isZero)), (KString ''length'', Schema number)] \<and>
   has_property (VArray 0 [VNumber (Finite 0)]) (KString ''0'') \<and>
   has_property (VArray 0 [VNumber (Finite 0)]) (KString ''length'') \<and>
   run_properties
     (required_properties [(KString ''0'', Schema (predicate isZero)), (KString ''1'', optional string),
        (KString ''length'', Schema number), (KString ''at'', optional unknown)] @
      optional_properties [(KString ''0'', Schema (predicate isZero)), (KString ''1'', optional string),
        (KString ''length'', Schema number), (KString ''at'', optional unknown)])
     (VArray 0 [VNumber (Finite 0)]) False \<lparr>next_addr = 1, calls = []\<rparr> =
     Some (False, \<lparr>next_addr = 1, calls = [(''isZero'', VNumber (Finite 0))]\<rparr>) \<and>
   validate (objectFunction [(KString ''0'', Schema (predicate isZero)), (KString ''1'', optional string),
       (KString ''length'', Schema number), (KString ''at'', optional unknown)])
     (VArray 0 [VNumber (Finite 0)]) \<lparr>next_addr = 1, calls = []\<rparr> =
     (Inr (Success (VArray 0 [VNumber (Finite 0)])),
      \<lparr>next_addr = 1, calls = [(''isZero'', VNumber (Finite 0))]\<rparr>) \<and>
   validate (objectFunction []) (VArray 0 [VNumber (Finite 0)]) \<lparr>next_addr = 1, calls = []\<rparr> =
     (Inr (Success (VArray 0 [VNumber (Finite 0)])), \<lparr>next_addr = 1, calls = []\<rparr>)"
proof -
  let ?ps = "[(KString ''0'', Schema (predicate isZero)), (KString ''1'', optional string),
       (KString ''length'', Schema number), (KString ''at'', optional unknown)]"
  let ?v = "VArray 0 [VNumber (Finite 0)]"
  let ?w = "\<lparr>next_addr = 1, calls = []\<rparr>"
  let ?w' = "\<lparr>next_addr = 1, calls = [(''isZero'', VNumber (Finite 0))]\<rparr>"
  have a: "isArray ?v" by simp
  have rq: "required_properties ?ps =
      [(KString ''0'', Schema (predicate isZero)), (KString ''length'', Schema number)]"
    by (simp add: required_properties_def optional_def)
  have op: "optional_properties ?ps =
      [(KString ''1'', optional string), (KString ''at'', optional unknown)]"
    by (simp add: optional_properties_def optional_def)
  have p: "has_property ?v (KString ''0'')" "has_property ?v (KString ''length'')"
    "\<not> has_property ?v (KString ''1'')" "has_property ?v (KString ''at'')"
    by (simp_all add: lookup_simps show_nat_small)
  have g: "get_property ?v (KString ''0'') = VNumber (Finite 0)"
    "get_property ?v (KString ''length'') = VNumber (Finite 1)"
    "get_property ?v (KString ''at'') = VIntrinsic (Builtin ''Array.prototype.at'')"
    by (simp_all add: lookup_simps show_nat_small)
  have run: "run_properties (required_properties ?ps @ optional_properties ?ps) ?v False ?w =
      Some (False, ?w')"
    unfolding rq op
    by (simp add: p g predicate_def invoke_def isZero_def number_def unknown_def optional_def)
  have h: "\<forall>(k, p) \<in> set (required_properties ?ps). has_property ?v k"
    unfolding rq using p by simp
  from object_accepts_arrays [OF a, of ?ps ?w False ?w'] h run
  have 1: "validate (objectFunction ?ps) ?v ?w = (Inr (Success ?v), ?w')"
    by auto
  have "run_properties (required_properties [] @ optional_properties []) ?v False ?w =
      Some (False, ?w)"
    by (simp add: required_properties_def optional_properties_def)
  with object_accepts_arrays [OF a, of "[]" ?w False ?w]
  have 2: "validate (objectFunction []) ?v ?w = (Inr (Success ?v), ?w)"
    by (auto simp: required_properties_def)
  show ?thesis
    using a rq p(1,2) run 1 2 by simp
qed

subsection \<open>The path of a nested failure\<close>

text \<open>
  Claim C1. The code, on \<^verbatim>\<open>object({a: Array_(number)})\<close> against \<^verbatim>\<open>{a: [1, 'x']}\<close>: validation
  fails with the message \<^verbatim>\<open>not a number\<close>, and the path is \<open>[1, 'a']\<close>, the index before the
  key. \<^verbatim>\<open>Array_\<close> puts the index in front of the child's path
  (\<open>Array_failure_path\<close>); \<^verbatim>\<open>object\<close> puts the key behind it
  (\<open>objectFunction_failure_path\<close>).
\<close>

theorem object_of_array_path:
  "validate (objectFunction [(KString ''a'', Schema (Array number))])
     (VObject 0 [(KString ''a'', VArray 1 [VNumber (Finite 1), VString ''x''])])
     \<lparr>next_addr = 2, calls = []\<rparr> =
     (Inr (Failure \<lparr>message = ''not a number'', path = [PIndex 1, PKey (KString ''a'')]\<rparr>),
      \<lparr>next_addr = 2, calls = []\<rparr>)"
  by (simp add: objectFunction_def Array_def number_def lookup_simps
      validate_elements.simps failure_def)

theorem object_of_array_path_witness:
  "fst (validate (objectFunction [(KString ''a'', Schema (Array number))])
     (VObject 0 [(KString ''a'', VArray 1 [VNumber (Finite 1), VString ''x''])])
     \<lparr>next_addr = 2, calls = []\<rparr>) \<noteq>
   Inr (Failure \<lparr>message = ''not a number'', path = [PKey (KString ''a''), PIndex 1]\<rparr>)"
  using object_of_array_path by simp

subsection \<open>Aggregates with a \<open>NaN\<close> child\<close>

text \<open>
  A child that changes its value: the aggregate returned is a new one, in which the changed
  position carries the new value and the others are the values of the input.
\<close>

lemma changed_child_examples:
  "validate (objectFunction [(KString ''a'', Schema (convert toText)), (KString ''b'', Schema number)])
     (VObject 0 [(KString ''a'', VUndefined), (KString ''b'', VNumber (Finite 1)),
                 (KString ''c'', VArray 1 [])])
     \<lparr>next_addr = 2, calls = []\<rparr> =
     (Inr (Success (VObject 2 [(KString ''a'', VString ''undefined''), (KString ''b'', VNumber (Finite 1)),
                               (KString ''c'', VArray 1 [])])),
      \<lparr>next_addr = 3, calls = [(''toText'', VUndefined)]\<rparr>)"
  "validate (Array (convert toText)) (VArray 0 [VString ''x'', VUndefined, VString ''y''])
     \<lparr>next_addr = 1, calls = []\<rparr> =
     (Inr (Success (VArray 1 [VString ''x'', VString ''undefined'', VString ''y''])),
      \<lparr>next_addr = 2,
        calls = [(''toText'', VString ''x''), (''toText'', VUndefined), (''toText'', VString ''y'')]\<rparr>)"
  by (simp_all add: objectFunction_def Array_def convert_def invoke_def toText_def number_def
      lookup_simps validate_elements.simps spread_with_def toSpliced_def)

text \<open>
  Claim C4. The code, on \<^verbatim>\<open>object({a: number})\<close> against \<^verbatim>\<open>{a: NaN}\<close> and on
  \<^verbatim>\<open>Array_(number)\<close> against \<^verbatim>\<open>[NaN]\<close>: the child validation returns the very value it was
  given, \<open>NaN\<close>, and yet the aggregate returned is a new object, respectively a new array,
  with a new reference, since \<^verbatim>\<open>NaN !== NaN\<close>. When every child returns a value \<^verbatim>\<open>===\<close> to
  its input, the aggregate is returned as it is, and otherwise the new aggregate differs
  from the input at the changed positions only (\<open>objectFunction_pure\<close>, \<open>Array_pure\<close>).
\<close>

theorem NaN_child_copies_aggregate:
  "validate number (VNumber NaN) \<lparr>next_addr = 1, calls = []\<rparr> =
     (Inr (Success (VNumber NaN)), \<lparr>next_addr = 1, calls = []\<rparr>) \<and>
   validate (objectFunction [(KString ''a'', Schema number)])
     (VObject 0 [(KString ''a'', VNumber NaN)]) \<lparr>next_addr = 1, calls = []\<rparr> =
     (Inr (Success (VObject 1 [(KString ''a'', VNumber NaN)])), \<lparr>next_addr = 2, calls = []\<rparr>) \<and>
   \<not> strict_eq (VObject 1 [(KString ''a'', VNumber NaN)]) (VObject 0 [(KString ''a'', VNumber NaN)]) \<and>
   validate (Array number) (VArray 0 [VNumber NaN]) \<lparr>next_addr = 1, calls = []\<rparr> =
     (Inr (Success (VArray 1 [VNumber NaN])), \<lparr>next_addr = 2, calls = []\<rparr>) \<and>
   \<not> strict_eq (VArray 1 [VNumber NaN]) (VArray 0 [VNumber NaN])"
  by (simp add: objectFunction_def Array_def number_def lookup_simps
      validate_elements.simps spread_with_def toSpliced_def)

theorem NaN_child_copies_aggregate_witness:
  "fst (validate (objectFunction [(KString ''a'', Schema number)])
     (VObject 0 [(KString ''a'', VNumber NaN)]) \<lparr>next_addr = 1, calls = []\<rparr>) \<noteq>
     Inr (Success (VObject 0 [(KString ''a'', VNumber NaN)])) \<and>
   fst (validate (Array number) (VArray 0 [VNumber NaN]) \<lparr>next_addr = 1, calls = []\<rparr>) \<noteq>
     Inr (Success (VArray 0 [VNumber NaN]))"
  using NaN_child_copies_aggregate by simp

end
